theory Spec2Isabelle
  imports Complex_Main "HOL-Library.AList"
begin

section \<open>The memory record (memory\_interface.py)\<close>

text \<open>
  The three string enumerations of \<^verbatim>\<open>memory_interface.py\<close>. Each member has its own
  string value, so a member and its value determine each other; the model keeps the member.
\<close>

datatype MemoryType =
    USER_DATA | CONVERSATION | FRAGMENT | SOLUTION | SYSTEM | SYSTEM_STATE
  | KNOWLEDGE | USER_PREFERENCE | ERROR_LOG | TASK

datatype RetentionPolicy = PERMANENT | SESSION | TEMPORARY | AUTO_EXPIRE | TIER_SPECIFIC

datatype MemoryPriority = CRITICAL | HIGH | MEDIUM | LOW

text \<open>
  Values of the open \<^verbatim>\<open>metadata\<close> dictionary (\<^verbatim>\<open>Dict[str, Any]\<close>): the values that
  \<^verbatim>\<open>json.dump\<close> writes and \<^verbatim>\<open>json.load\<close> reads back unchanged. A Python dictionary keeps
  its keys in insertion order; it is an association list here.
\<close>

datatype pyval =
    PNone
  | PBool bool
  | PInt int
  | PFloat real
  | PStr string
  | PList "pyval list"
  | PDict "(string \<times> pyval) list"

text \<open>
  A \<^verbatim>\<open>datetime\<close> is the number of microseconds since the epoch, the resolution of Python's
  \<^verbatim>\<open>datetime\<close> and \<^verbatim>\<open>timedelta\<close>.
\<close>

type_synonym datetime = int

text \<open>
  \<^verbatim>\<open>UnifiedMemoryItem\<close>, field by field. The field \<^verbatim>\<open>id\<close> is called \<open>item_id\<close> (the
  name \<open>id\<close> is the identity function of HOL).
\<close>

record UnifiedMemoryItem =
  item_id :: string
  content :: string
  memory_type :: MemoryType
  tier_source :: string
  tags :: "string list"
  metadata :: "(string \<times> pyval) list"
  timestamp :: datetime
  last_accessed :: "datetime option"
  last_modified :: "datetime option"
  retention_policy :: RetentionPolicy
  priority :: MemoryPriority
  access_count :: int
  usage_score :: real
  embeddings :: "real list option"
  embedding_model :: "string option"
  related_items :: "string list"
  parent_id :: "string option"
  confidence :: real
  relevance_decay :: real
  has_pii :: bool
  encryption_key :: "string option"

text \<open>
  The constructor call \<^verbatim>\<open>UnifiedMemoryItem(content=..., memory_type=..., tier_source=...)\<close>
  with every other field at its declared default. The two default factories read the
  environment: \<^verbatim>\<open>uuid.uuid4()\<close> for the id and \<^verbatim>\<open>datetime.utcnow()\<close> for the timestamp; they
  are the arguments \<open>uid\<close> and \<open>now\<close>.
\<close>

definition new_item :: "string \<Rightarrow> datetime \<Rightarrow> string \<Rightarrow> MemoryType \<Rightarrow> string \<Rightarrow> UnifiedMemoryItem" where
  "new_item uid now c mt ts =
     \<lparr> item_id = uid, content = c, memory_type = mt, tier_source = ts,
       tags = [], metadata = [], timestamp = now,
       last_accessed = None, last_modified = None,
       retention_policy = AUTO_EXPIRE, priority = MEDIUM,
       access_count = 0, usage_score = 0,
       embeddings = None, embedding_model = None,
       related_items = [], parent_id = None,
       confidence = 1, relevance_decay = 0,
       has_pii = False, encryption_key = None \<rparr>"

section \<open>Errors and partial updates\<close>

text \<open>
  The exceptions that cross the provider boundary. \<open>ValueError\<close> is what assigning to a name
  that is not a declared field of the record raises, and what opening a path with a null
  byte raises; \<open>KeyError\<close> is a \<^verbatim>\<open>del\<close> or a subscript on a dictionary key that is absent;
  \<open>FileNotFoundError\<close> and \<open>NotADirectoryError\<close> are what opening a path raises whose
  directory is missing or is a regular file; \<open>ValidationError\<close> is what the constructor of a
  model raises on a value outside the declared bounds; \<open>OverflowError\<close> is what binding an
  integer outside the 64-bit range to a statement of the database raises.
  \<open>OutsideDirectory\<close> is no exception of Python: it marks a call on a path that leaves the
  directory of the flat-file backend, where the outcome depends on files the backend does
  not manage.
\<close>

datatype error =
    ValueError | KeyError | FileNotFoundError | NotADirectoryError
  | ValidationError | OverflowError | OutsideDirectory




section \<open>The flat-file backend (json\_storage.py)\<close>

text \<open>
  The path of a record is \<^verbatim>\<open>base_path / f"{memory_id}.json"\<close>. \<^verbatim>\<open>pathlib\<close> splits the
  right-hand side at \<^verbatim>\<open>/\<close> and drops the empty components and the components \<^verbatim>\<open>.\<close>; a
  right-hand side that starts with \<^verbatim>\<open>/\<close> replaces the base path. So the path is
  \<^item> a file of the directory (\<open>File name\<close>), when one component is left;
  \<^item> a path below a component of the directory (\<open>Nested first\<close>), when several are left;
    the directory holds regular files only, so no such path exists;
  \<^item> a path that leaves the directory (\<open>Outside\<close>), when it is absolute or its first
    component is \<^verbatim>\<open>..\<close>;
  \<^item> unusable (\<open>Unusable\<close>), when it has a null byte.
  Limits of the file system on the length of a name are not modelled.
\<close>

fun split_path :: "string \<Rightarrow> string list" where
  "split_path [] = [[]]"
| "split_path (c # cs) =
     (if c = CHR ''/'' then [] # split_path cs
      else (case split_path cs of
              [] \<Rightarrow> [[c]]
            | w # ws \<Rightarrow> (c # w) # ws))"

datatype location = File string | Nested string | Outside | Unusable

definition memory_file_path :: "string \<Rightarrow> location" where
  "memory_file_path memory_id =
     (let name = memory_id @ ''.json'';
          parts = filter (\<lambda>p. p \<noteq> [] \<and> p \<noteq> ''.'') (split_path name)
      in if CHR 0x00 \<in> set name then Unusable
         else if take 1 name = ''/'' \<or> take 1 parts = [''..''] then Outside
         else (case parts of
                 [] \<Rightarrow> Unusable
               | [p] \<Rightarrow> File p
               | p # _ \<Rightarrow> Nested p))"

text \<open>An id whose path is a file of the directory.\<close>

definition in_directory :: "string \<Rightarrow> bool" where
  "in_directory memory_id =
     (case memory_file_path memory_id of File name \<Rightarrow> True | _ \<Rightarrow> False)"

text \<open>
  The directory of the backend: its files by name, in the order \<^verbatim>\<open>glob('*.json')\<close> yields
  them (every file the backend writes has a name that ends in \<^verbatim>\<open>.json\<close>). A file holds the
  document \<^verbatim>\<open>json.dump(item.dict())\<close>; the model keeps the field values of the document.
  A directory has no two files of the same name (\<open>json_wf\<close>).
\<close>

type_synonym JSONMemoryStorage = "(string \<times> UnifiedMemoryItem) list"


text \<open>
  \<^verbatim>\<open>UnifiedMemoryItem(**data)\<close> on the document of a file: the constructor checks the
  declared bounds, \<^verbatim>\<open>confidence\<close> between 0 and 1, and raises a validation error otherwise.
\<close>

definition validate :: "UnifiedMemoryItem \<Rightarrow> error + UnifiedMemoryItem" where
  "validate data =
     (if 0 \<le> confidence data \<and> confidence data \<le> 1 then Inr data else Inl ValidationError)"

text \<open>
  \<^verbatim>\<open>save\<close> opens the file for writing, which creates it or replaces its content; opening a
  nested path raises, as the directory of the file is missing or is a regular file.
\<close>

definition json_save ::
  "JSONMemoryStorage \<Rightarrow> UnifiedMemoryItem \<Rightarrow> error + (JSONMemoryStorage \<times> string)" where
  "json_save st item =
     (case memory_file_path (item_id item) of
        File name \<Rightarrow> Inr (AList.update name item st, item_id item)
      | Nested first \<Rightarrow>
          Inl (if map_of st first \<noteq> None then NotADirectoryError else FileNotFoundError)
      | Unusable \<Rightarrow> Inl ValueError
      | Outside \<Rightarrow> Inl OutsideDirectory)"

text \<open>
  The document found at the path of an id, or \<open>None\<close> when \<^verbatim>\<open>file_path.exists()\<close> is false:
  it is false for a nested and for an unusable path.
\<close>

definition json_read :: "JSONMemoryStorage \<Rightarrow> string \<Rightarrow> error + UnifiedMemoryItem option" where
  "json_read st memory_id =
     (case memory_file_path memory_id of
        File name \<Rightarrow> Inr (map_of st name)
      | Nested first \<Rightarrow> Inr None
      | Unusable \<Rightarrow> Inr None
      | Outside \<Rightarrow> Inl OutsideDirectory)"

definition json_get_by_id :: "JSONMemoryStorage \<Rightarrow> string \<Rightarrow> error + UnifiedMemoryItem option" where
  "json_get_by_id st memory_id =
     (case json_read st memory_id of
        Inl e \<Rightarrow> Inl e
      | Inr None \<Rightarrow> Inr None
      | Inr (Some data) \<Rightarrow>
          (case validate data of
             Inl e \<Rightarrow> Inl e
           | Inr item \<Rightarrow> Inr (Some item)))"


definition json_delete :: "JSONMemoryStorage \<Rightarrow> string \<Rightarrow> error + (JSONMemoryStorage \<times> bool)" where
  "json_delete st memory_id =
     (case memory_file_path memory_id of
        File name \<Rightarrow>
          Inr (if map_of st name \<noteq> None then (AList.delete name st, True) else (st, False))
      | Nested first \<Rightarrow> Inr (st, False)
      | Unusable \<Rightarrow> Inr (st, False)
      | Outside \<Rightarrow> Inl OutsideDirectory)"

text \<open>
  The test of \<^verbatim>\<open>cleanup_expired\<close>:
  \<^verbatim>\<open>item.retention_policy == 'temporary' and (utcnow() - item.timestamp).total_seconds() > 24 * 3600\<close>.
  \<^verbatim>\<open>total_seconds()\<close> is the difference in microseconds divided by \<open>10\<^sup>6\<close>, so the
  comparison is the one below, on microseconds. \<open>now\<close> is the reading of the clock.
\<close>

definition horizon :: int where
  "horizon = 24 * 3600 * 1000000"

definition expired :: "datetime \<Rightarrow> UnifiedMemoryItem \<Rightarrow> bool" where
  "expired now item \<longleftrightarrow> retention_policy item = TEMPORARY \<and> now - timestamp item > horizon"

text \<open>
  The loop of \<^verbatim>\<open>cleanup_expired\<close> over the listing taken before the loop. Each file is
  opened where it stands now and its document is given to the constructor, which may raise;
  the clock is read once for each file, and \<open>clock name\<close> is the reading taken for the file
  \<open>name\<close>; the file is removed if expired and not a dry run, and counted. An exception ends the
  loop with the files removed so far gone: the result is the directory as the call leaves it
  and the exception or the count.
\<close>

fun cleanup_loop ::
  "(string \<Rightarrow> datetime) \<Rightarrow> bool \<Rightarrow> string list \<Rightarrow> JSONMemoryStorage \<Rightarrow> nat \<Rightarrow>
     JSONMemoryStorage \<times> (error + nat)" where
  "cleanup_loop clock dry_run [] st expired_count = (st, Inr expired_count)"
| "cleanup_loop clock dry_run (name # names) st expired_count =
     (case map_of st name of
        None \<Rightarrow> (st, Inl FileNotFoundError)
      | Some data \<Rightarrow>
          (case validate data of
             Inl e \<Rightarrow> (st, Inl e)
           | Inr item \<Rightarrow>
               if expired (clock name) item
               then cleanup_loop clock dry_run names
                      (if dry_run then st else AList.delete name st) (Suc expired_count)
               else cleanup_loop clock dry_run names st expired_count))"

definition json_cleanup_expired ::
  "(string \<Rightarrow> datetime) \<Rightarrow> bool \<Rightarrow> JSONMemoryStorage \<Rightarrow> JSONMemoryStorage \<times> (error + nat)" where
  "json_cleanup_expired clock dry_run st = cleanup_loop clock dry_run (map fst st) st 0"

section \<open>The relational backend (sqlite\_storage.py)\<close>

text \<open>
  One row of the table \<^verbatim>\<open>memories\<close>, column by column. The columns \<^verbatim>\<open>metadata\<close> and
  \<^verbatim>\<open>timestamp\<close> hold the text written by \<^verbatim>\<open>json.dumps\<close> and \<^verbatim>\<open>isoformat\<close> and read by
  \<^verbatim>\<open>json.loads\<close> and \<^verbatim>\<open>fromisoformat\<close>; the model keeps the value that text stands for.
  The column \<^verbatim>\<open>tags\<close> holds the text that \<^verbatim>\<open>','.join\<close> builds.
\<close>

record memory_row =
  r_id :: string
  r_content :: string
  r_memory_type :: MemoryType
  r_tier_source :: string
  r_tags :: string
  r_metadata :: "(string \<times> pyval) list"
  r_timestamp :: datetime
  r_retention_policy :: RetentionPolicy
  r_access_count :: int
  r_last_accessed :: "datetime option"

text \<open>Python's \<^verbatim>\<open>','.join(xs)\<close> and \<^verbatim>\<open>s.split(',')\<close>.\<close>

fun join_comma :: "string list \<Rightarrow> string" where
  "join_comma [] = []"
| "join_comma [t] = t"
| "join_comma (t # u # us) = t @ CHR '','' # join_comma (u # us)"

fun split_comma :: "string \<Rightarrow> string list" where
  "split_comma [] = [[]]"
| "split_comma (c # cs) =
     (if c = CHR '','' then [] # split_comma cs
      else (case split_comma cs of
              [] \<Rightarrow> [[c]]
            | w # ws \<Rightarrow> (c # w) # ws))"

text \<open>The tuple bound to the \<^verbatim>\<open>INSERT OR REPLACE\<close> statement of \<^verbatim>\<open>save\<close>.\<close>

definition row_of_item :: "UnifiedMemoryItem \<Rightarrow> memory_row" where
  "row_of_item item =
     \<lparr> r_id = item_id item, r_content = content item,
       r_memory_type = memory_type item, r_tier_source = tier_source item,
       r_tags = join_comma (tags item), r_metadata = metadata item,
       r_timestamp = timestamp item, r_retention_policy = retention_policy item,
       r_access_count = access_count item, r_last_accessed = last_accessed item \<rparr>"

text \<open>
  The item that \<^verbatim>\<open>get_by_id\<close> and \<^verbatim>\<open>query\<close> build from a row: ten fields from the
  columns, every other field at its default.
\<close>

definition item_of_row :: "memory_row \<Rightarrow> UnifiedMemoryItem" where
  "item_of_row row =
     (new_item (r_id row) (r_timestamp row) (r_content row) (r_memory_type row) (r_tier_source row))
       \<lparr> tags := split_comma (r_tags row),
         metadata := r_metadata row,
         retention_policy := r_retention_policy row,
         access_count := r_access_count row,
         last_accessed := r_last_accessed row \<rparr>"

text \<open>
  The table is the list of its rows in rowid order. \<^verbatim>\<open>INSERT OR REPLACE\<close> on the primary
  key removes the row with that id, if any, and inserts the new row with a fresh rowid,
  at the end.
\<close>

type_synonym SQLiteMemoryStorage = "memory_row list"

text \<open>
  The column \<^verbatim>\<open>access_count\<close> is an \<^verbatim>\<open>INTEGER\<close>: binding a Python integer outside the signed
  64-bit range raises \<^verbatim>\<open>OverflowError\<close> before the statement runs.
\<close>

definition sqlite_integer :: "int \<Rightarrow> bool" where
  "sqlite_integer n \<longleftrightarrow> - (2 ^ 63) \<le> n \<and> n < 2 ^ 63"

definition sqlite_save ::
  "SQLiteMemoryStorage \<Rightarrow> UnifiedMemoryItem \<Rightarrow> error + (SQLiteMemoryStorage \<times> string)" where
  "sqlite_save db item =
     (if sqlite_integer (access_count item)
      then Inr (filter (\<lambda>r. r_id r \<noteq> item_id item) db @ [row_of_item item], item_id item)
      else Inl OverflowError)"

definition sqlite_get_by_id :: "SQLiteMemoryStorage \<Rightarrow> string \<Rightarrow> UnifiedMemoryItem option" where
  "sqlite_get_by_id db memory_id =
     (case filter (\<lambda>r. r_id r = memory_id) db of
        [] \<Rightarrow> None
      | row # _ \<Rightarrow> Some (item_of_row row))"

text \<open>\<^verbatim>\<open>delete\<close> runs the \<^verbatim>\<open>DELETE\<close> statement and returns \<^verbatim>\<open>True\<close>, whatever it removed.\<close>

definition sqlite_delete :: "SQLiteMemoryStorage \<Rightarrow> string \<Rightarrow> SQLiteMemoryStorage \<times> bool" where
  "sqlite_delete db memory_id = (filter (\<lambda>r. r_id r \<noteq> memory_id) db, True)"

section \<open>Query filters and results (memory\_interface.py)\<close>

text \<open>
  \<^verbatim>\<open>MemoryQueryFilter\<close>, field by field, each name prefixed with \<open>f_\<close>. The constructor
  accepts a \<^verbatim>\<open>limit\<close> between 1 and 1000 and raises a validation error otherwise.
\<close>

record MemoryQueryFilter =
  f_content_search :: "string option"
  f_semantic_query :: "string option"
  f_memory_types :: "MemoryType list option"
  f_tier_sources :: "string list option"
  f_tags :: "string list option"
  f_metadata_filters :: "(string \<times> pyval) list option"
  f_start_time :: "datetime option"
  f_end_time :: "datetime option"
  f_created_after :: "datetime option"
  f_created_before :: "datetime option"
  f_accessed_after :: "datetime option"
  f_min_confidence :: "real option"
  f_min_usage_score :: "real option"
  f_priorities :: "MemoryPriority list option"
  f_related_to :: "string option"
  f_parent_id :: "string option"
  f_limit :: nat
  f_offset :: nat
  f_sort_by :: string
  f_sort_desc :: bool

definition new_filter :: MemoryQueryFilter where
  "new_filter =
     \<lparr> f_content_search = None, f_semantic_query = None,
       f_memory_types = None, f_tier_sources = None,
       f_tags = None, f_metadata_filters = None,
       f_start_time = None, f_end_time = None,
       f_created_after = None, f_created_before = None, f_accessed_after = None,
       f_min_confidence = None, f_min_usage_score = None, f_priorities = None,
       f_related_to = None, f_parent_id = None,
       f_limit = 10, f_offset = 0, f_sort_by = ''timestamp'', f_sort_desc = True \<rparr>"

definition valid_limit :: "nat \<Rightarrow> bool" where
  "valid_limit n \<longleftrightarrow> 1 \<le> n \<and> n \<le> 1000"

text \<open>
  \<^verbatim>\<open>MemorySearchResult\<close>: the items, their count and the filter echoed back. The elapsed
  time \<^verbatim>\<open>search_time_ms\<close> is a reading of the wall clock and is left out; the two optional
  fields for semantic scores are never set.
\<close>

record MemorySearchResult =
  items :: "UnifiedMemoryItem list"
  total_count :: nat
  query_filter :: MemoryQueryFilter

text \<open>
  Truth values of Python: \<^verbatim>\<open>None\<close>, the empty string and the empty list are false.
  \<open>opt_list\<close> reads an optional list, so that \<^verbatim>\<open>if xs:\<close> is \<open>opt_list xs \<noteq> []\<close>.
\<close>

definition opt_list :: "'a list option \<Rightarrow> 'a list" where
  "opt_list xs = (case xs of None \<Rightarrow> [] | Some ys \<Rightarrow> ys)"

section \<open>The vector backend (faiss\_storage.py)\<close>

text \<open>
  The state of \<^verbatim>\<open>FAISSMemoryStorage\<close>: the vectors of the flat index in slot order (its
  \<^verbatim>\<open>ntotal\<close> is their number), the dictionary from slots to records, the dictionary from
  record ids to slots, and the next slot. Both dictionaries are association lists in
  insertion order, as Python keeps them. The type \<open>'v\<close> is the type of embedding vectors.
  The embedding model and the nearest-neighbour search of the index are library code: they
  are the parameters \<open>get_embedding\<close> (a text to its vector) and \<open>search\<close> (the vectors of the index,
  a query vector and \<open>k\<close> to \<open>k\<close> pairs of a distance and a slot number, \<open>-1\<close> for no match).
\<close>

record 'v FAISSMemoryStorage =
  index :: "'v list"
  id_to_memory :: "(nat \<times> UnifiedMemoryItem) list"
  memory_id_to_index :: "(string \<times> nat) list"
  next_index_position :: nat

definition create_new_index :: "'v FAISSMemoryStorage" where
  "create_new_index =
     \<lparr> index = [], id_to_memory = [], memory_id_to_index = [], next_index_position = 0 \<rparr>"

definition faiss_save ::
  "(string \<Rightarrow> 'v) \<Rightarrow> 'v FAISSMemoryStorage \<Rightarrow> UnifiedMemoryItem \<Rightarrow> 'v FAISSMemoryStorage \<times> string" where
  "faiss_save get_embedding s item =
     (case map_of (memory_id_to_index s) (item_id item) of
        Some index_pos \<Rightarrow>
          (s\<lparr>id_to_memory := AList.update index_pos item (id_to_memory s)\<rparr>, item_id item)
      | None \<Rightarrow>
          (s\<lparr>index := index s @ [get_embedding (content item)],
             id_to_memory := AList.update (next_index_position s) item (id_to_memory s),
             memory_id_to_index :=
               AList.update (item_id item) (next_index_position s) (memory_id_to_index s),
             next_index_position := Suc (next_index_position s)\<rparr>, item_id item))"


text \<open>
  \<^verbatim>\<open>delete\<close>: \<^verbatim>\<open>del self.id_to_memory[index_pos]\<close> raises \<^verbatim>\<open>KeyError\<close> when the slot is not
  a key. The vectors of the index stay as they are.
\<close>

definition faiss_delete ::
  "'v FAISSMemoryStorage \<Rightarrow> string \<Rightarrow> error + ('v FAISSMemoryStorage \<times> bool)" where
  "faiss_delete s memory_id =
     (case map_of (memory_id_to_index s) memory_id of
        None \<Rightarrow> Inr (s, False)
      | Some index_pos \<Rightarrow>
          (case map_of (id_to_memory s) index_pos of
             None \<Rightarrow> Inl KeyError
           | Some _ \<Rightarrow>
               Inr (s\<lparr>id_to_memory := AList.delete index_pos (id_to_memory s),
                      memory_id_to_index := AList.delete memory_id (memory_id_to_index s)\<rparr>, True)))"

text \<open>The two loops of \<^verbatim>\<open>batch_save\<close> after the vectors of the new items are added.\<close>

fun add_new_items :: "UnifiedMemoryItem list \<Rightarrow> 'v FAISSMemoryStorage \<Rightarrow> 'v FAISSMemoryStorage" where
  "add_new_items [] s = s"
| "add_new_items (item # new_items) s =
     add_new_items new_items
       (s\<lparr>id_to_memory := AList.update (next_index_position s) item (id_to_memory s),
          memory_id_to_index :=
            AList.update (item_id item) (next_index_position s) (memory_id_to_index s),
          next_index_position := Suc (next_index_position s)\<rparr>)"

fun update_existing :: "UnifiedMemoryItem list \<Rightarrow> 'v FAISSMemoryStorage \<Rightarrow> 'v FAISSMemoryStorage" where
  "update_existing [] s = s"
| "update_existing (item # rest) s =
     update_existing rest
       (case map_of (memory_id_to_index s) (item_id item) of
          Some index_pos \<Rightarrow> s\<lparr>id_to_memory := AList.update index_pos item (id_to_memory s)\<rparr>
        | None \<Rightarrow> s)"

definition faiss_batch_save ::
  "(string \<Rightarrow> 'v) \<Rightarrow> 'v FAISSMemoryStorage \<Rightarrow> UnifiedMemoryItem list \<Rightarrow>
     'v FAISSMemoryStorage \<times> string list" where
  "faiss_batch_save get_embedding s batch =
     (let new_items = filter (\<lambda>item. map_of (memory_id_to_index s) (item_id item) = None) batch;
          s1 = (if new_items \<noteq> []
                then add_new_items new_items
                       (s\<lparr>index := index s @ map (\<lambda>item. get_embedding (content item)) new_items\<rparr>)
                else s)
      in (update_existing batch s1, map item_id batch))"

text \<open>
  \<^verbatim>\<open>rebuild_index\<close>: the loop \<^verbatim>\<open>for i, item in enumerate(items)\<close> on the fresh index,
  then the next slot.
\<close>

fun rebuild_loop :: "(nat \<times> UnifiedMemoryItem) list \<Rightarrow> 'v FAISSMemoryStorage \<Rightarrow> 'v FAISSMemoryStorage" where
  "rebuild_loop [] s = s"
| "rebuild_loop ((i, item) # rest) s =
     rebuild_loop rest
       (s\<lparr>id_to_memory := AList.update i item (id_to_memory s),
          memory_id_to_index := AList.update (item_id item) i (memory_id_to_index s)\<rparr>)"

definition rebuild_index :: "(string \<Rightarrow> 'v) \<Rightarrow> 'v FAISSMemoryStorage \<Rightarrow> 'v FAISSMemoryStorage" where
  "rebuild_index get_embedding s =
     (if id_to_memory s = [] then create_new_index
      else
        let all_items = map snd (id_to_memory s);
            fresh = create_new_index\<lparr>index := map (\<lambda>item. get_embedding (content item)) all_items\<rparr>
        in (rebuild_loop (enumerate 0 all_items) fresh)
             \<lparr>next_index_position := length all_items\<rparr>)"

text \<open>
  The copy that \<^verbatim>\<open>query\<close> builds for a hit of the search: ten fields of the stored record,
  the distance added to the metadata under \<^verbatim>\<open>similarity_score\<close>, every other field at its
  default.
\<close>

definition item_copy :: "UnifiedMemoryItem \<Rightarrow> real \<Rightarrow> UnifiedMemoryItem" where
  "item_copy item d =
     (new_item (item_id item) (timestamp item) (content item) (memory_type item) (tier_source item))
       \<lparr> tags := tags item,
         metadata := AList.update ''similarity_score'' (PFloat d) (metadata item),
         retention_policy := retention_policy item,
         access_count := access_count item,
         last_accessed := last_accessed item \<rparr>"

text \<open>
  The loop over the hits: a hit is kept when its slot number is not \<open>-1\<close> and is a key of
  \<^verbatim>\<open>id_to_memory\<close> (the keys are natural numbers, so no negative number is one).
\<close>

fun collect_hits :: "(nat \<times> UnifiedMemoryItem) list \<Rightarrow> (real \<times> int) list \<Rightarrow> UnifiedMemoryItem list" where
  "collect_hits i2m [] = []"
| "collect_hits i2m ((d, idx) # hits) =
     (if idx \<noteq> - 1 \<and> 0 \<le> idx
      then (case map_of i2m (nat idx) of
              Some item \<Rightarrow> item_copy item d # collect_hits i2m hits
            | None \<Rightarrow> collect_hits i2m hits)
      else collect_hits i2m hits)"

definition faiss_candidates ::
  "(string \<Rightarrow> 'v) \<Rightarrow> ('v list \<Rightarrow> 'v \<Rightarrow> nat \<Rightarrow> (real \<times> int) list) \<Rightarrow>
     'v FAISSMemoryStorage \<Rightarrow> MemoryQueryFilter \<Rightarrow> UnifiedMemoryItem list" where
  "faiss_candidates get_embedding search s f =
     (case f_content_search f of
        None \<Rightarrow> take (f_limit f) (map snd (id_to_memory s))
      | Some q \<Rightarrow>
          if q = [] then take (f_limit f) (map snd (id_to_memory s))
          else
            let k = (if length (index s) > 0 then min (f_limit f) (length (index s)) else 0)
            in if k > 0
               then collect_hits (id_to_memory s) (search (index s) (get_embedding q) k)
               else [])"

text \<open>The filters applied to the candidates, in the order of the source, then the limit.\<close>

definition post_filter :: "MemoryQueryFilter \<Rightarrow> UnifiedMemoryItem list \<Rightarrow> UnifiedMemoryItem list" where
  "post_filter f results =
     (let r1 = (if opt_list (f_memory_types f) \<noteq> []
                then filter (\<lambda>r. memory_type r \<in> set (opt_list (f_memory_types f))) results
                else results);
          r2 = (if opt_list (f_tier_sources f) \<noteq> []
                then filter (\<lambda>r. tier_source r \<in> set (opt_list (f_tier_sources f))) r1
                else r1);
          r3 = (if opt_list (f_tags f) \<noteq> []
                then filter (\<lambda>r. list_ex (\<lambda>tag. tag \<in> set (tags r)) (opt_list (f_tags f))) r2
                else r2);
          r4 = (case f_start_time f of
                  Some t \<Rightarrow> filter (\<lambda>r. timestamp r \<ge> t) r3
                | None \<Rightarrow> r3);
          r5 = (case f_end_time f of
                  Some t \<Rightarrow> filter (\<lambda>r. timestamp r \<le> t) r4
                | None \<Rightarrow> r4)
      in take (f_limit f) r5)"

definition faiss_query ::
  "(string \<Rightarrow> 'v) \<Rightarrow> ('v list \<Rightarrow> 'v \<Rightarrow> nat \<Rightarrow> (real \<times> int) list) \<Rightarrow>
     'v FAISSMemoryStorage \<Rightarrow> MemoryQueryFilter \<Rightarrow> MemorySearchResult" where
  "faiss_query get_embedding search s f =
     (let results = post_filter f (faiss_candidates get_embedding search s f)
      in \<lparr> items = results, total_count = length results, query_filter = f \<rparr>)"

definition faiss_semantic_search ::
  "(string \<Rightarrow> 'v) \<Rightarrow> ('v list \<Rightarrow> 'v \<Rightarrow> nat \<Rightarrow> (real \<times> int) list) \<Rightarrow>
     'v FAISSMemoryStorage \<Rightarrow> string \<Rightarrow> MemoryType list option \<Rightarrow> string list option \<Rightarrow> nat \<Rightarrow>
     error + MemorySearchResult" where
  "faiss_semantic_search get_embedding search s query mts tss limit =
     (if valid_limit limit
      then Inr (faiss_query get_embedding search s
                  (new_filter\<lparr>f_content_search := Some query, f_memory_types := mts,
                              f_tier_sources := tss, f_limit := limit\<rparr>))
      else Inl ValidationError)"

text \<open>
  The slot invariant of the vector backend: both dictionaries have each key once; every
  occupied slot holds a record whose id maps back to that slot and is below the next slot;
  every id maps to an occupied slot that holds a record of that id; and the next slot is
  the number of vectors in the index.
\<close>

definition faiss_inv :: "'v FAISSMemoryStorage \<Rightarrow> bool" where
  "faiss_inv s \<longleftrightarrow>
     distinct (map fst (id_to_memory s)) \<and>
     distinct (map fst (memory_id_to_index s)) \<and>
     (\<forall>(pos, item) \<in> set (id_to_memory s).
        map_of (memory_id_to_index s) (item_id item) = Some pos \<and> pos < next_index_position s) \<and>
     (\<forall>(mid, pos) \<in> set (memory_id_to_index s).
        map_option item_id (map_of (id_to_memory s) pos) = Some mid) \<and>
     next_index_position s = length (index s)"

text \<open>
  The part of the invariant that concerns the two dictionaries, with the bound on the
  occupied slots as an argument: inside \<^verbatim>\<open>batch_save\<close> and \<^verbatim>\<open>rebuild_index\<close> the bound
  moves while the index already holds all vectors.
\<close>

definition maps_ok :: "(nat \<times> UnifiedMemoryItem) list \<Rightarrow> (string \<times> nat) list \<Rightarrow> nat \<Rightarrow> bool" where
  "maps_ok i2m m2i n \<longleftrightarrow>
     distinct (map fst i2m) \<and> distinct (map fst m2i) \<and>
     (\<forall>pos item. map_of i2m pos = Some item \<longrightarrow>
        map_of m2i (item_id item) = Some pos \<and> pos < n) \<and>
     (\<forall>mid pos. map_of m2i mid = Some pos \<longrightarrow>
        (\<exists>item. map_of i2m pos = Some item \<and> item_id item = mid))"

section \<open>Update and query on the relational backend\<close>


text \<open>
  \<^verbatim>\<open>query\<close>: every row, or the rows whose content matches \<^verbatim>\<open>LIKE '%term%'\<close> when a search
  term is given. The \<^verbatim>\<open>LIKE\<close> operator belongs to the database engine; it is the parameter
  \<open>like\<close>, from a pattern and a text to a truth value.
\<close>

definition sqlite_query ::
  "(string \<Rightarrow> string \<Rightarrow> bool) \<Rightarrow> SQLiteMemoryStorage \<Rightarrow> MemoryQueryFilter \<Rightarrow> MemorySearchResult" where
  "sqlite_query like db f =
     (let rows = (case f_content_search f of
                    None \<Rightarrow> db
                  | Some q \<Rightarrow>
                      if q = [] then db
                      else filter (\<lambda>r. like (''%'' @ q @ ''%'') (r_content r)) db);
          results = map item_of_row rows
      in \<lparr> items = take (f_limit f) results, total_count = length results, query_filter = f \<rparr>)"

section \<open>The coordinator (hybrid\_storage.py)\<close>

record 'v HybridMemoryStorage =
  json_store :: JSONMemoryStorage
  sqlite_store :: SQLiteMemoryStorage
  faiss_store :: "'v FAISSMemoryStorage"

text \<open>
  The methods of the coordinator await the calls on the backends one after the other and
  catch nothing. An exception raised by a call ends the method there, with the earlier calls
  done and the later ones not made: the result is the state the method leaves and the
  exception or the returned value.
\<close>

definition hybrid_save ::
  "(string \<Rightarrow> 'v) \<Rightarrow> 'v HybridMemoryStorage \<Rightarrow> UnifiedMemoryItem \<Rightarrow>
     'v HybridMemoryStorage \<times> (error + string)" where
  "hybrid_save get_embedding h item =
     (case json_save (json_store h) item of
        Inl e \<Rightarrow> (h, Inl e)
      | Inr (j, _) \<Rightarrow>
          let h1 = h\<lparr>json_store := j\<rparr>
          in (case sqlite_save (sqlite_store h1) item of
                Inl e \<Rightarrow> (h1, Inl e)
              | Inr (q, _) \<Rightarrow>
                  let h2 = h1\<lparr>sqlite_store := q\<rparr>;
                      h3 = h2\<lparr>faiss_store := fst (faiss_save get_embedding (faiss_store h2) item)\<rparr>
                  in (h3, Inr (item_id item))))"


definition hybrid_query ::
  "(string \<Rightarrow> string \<Rightarrow> bool) \<Rightarrow> 'v HybridMemoryStorage \<Rightarrow> MemoryQueryFilter \<Rightarrow> MemorySearchResult" where
  "hybrid_query like h f = sqlite_query like (sqlite_store h) f"

definition hybrid_semantic_search ::
  "(string \<Rightarrow> 'v) \<Rightarrow> ('v list \<Rightarrow> 'v \<Rightarrow> nat \<Rightarrow> (real \<times> int) list) \<Rightarrow>
     'v HybridMemoryStorage \<Rightarrow> string \<Rightarrow> MemoryType list option \<Rightarrow> string list option \<Rightarrow> nat \<Rightarrow>
     error + MemorySearchResult" where
  "hybrid_semantic_search get_embedding search h query mts tss limit =
     faiss_semantic_search get_embedding search (faiss_store h) query mts tss limit"


definition hybrid_delete ::
  "'v HybridMemoryStorage \<Rightarrow> string \<Rightarrow> 'v HybridMemoryStorage \<times> (error + bool)" where
  "hybrid_delete h memory_id =
     (case json_delete (json_store h) memory_id of
        Inl e \<Rightarrow> (h, Inl e)
      | Inr (j, deleted) \<Rightarrow>
          let h1 = h\<lparr>json_store := j\<rparr>
          in if deleted
             then
               let h2 = h1\<lparr>sqlite_store := fst (sqlite_delete (sqlite_store h1) memory_id)\<rparr>
               in (case faiss_delete (faiss_store h2) memory_id of
                     Inl e \<Rightarrow> (h2, Inl e)
                   | Inr (v, _) \<Rightarrow> (h2\<lparr>faiss_store := v\<rparr>, Inr deleted))
             else (h1, Inr deleted))"

text \<open>
  \<^verbatim>\<open>cleanup_expired\<close> sweeps the flat-file backend only.
\<close>

definition hybrid_cleanup_expired ::
  "(string \<Rightarrow> datetime) \<Rightarrow> bool \<Rightarrow> 'v HybridMemoryStorage \<Rightarrow> 'v HybridMemoryStorage \<times> (error + nat)" where
  "hybrid_cleanup_expired clock dry_run h =
     (let (j, r) = json_cleanup_expired clock dry_run (json_store h)
      in (h\<lparr>json_store := j\<rparr>, r))"

section \<open>The memory hub (memory\_hub.py)\<close>

text \<open>
  The hub over the coordinator, as \<^verbatim>\<open>central_brain.py\<close> builds it: the storage backend and
  the dictionary \<^verbatim>\<open>session_memories\<close> from a session id to the list of ids cached for it.
\<close>

record 'v UnifiedMemoryHub =
  storage :: "'v HybridMemoryStorage"
  session_memories :: "(string \<times> string list) list"

text \<open>
  The record that \<^verbatim>\<open>save_memory\<close> builds. The call passes \<^verbatim>\<open>session_id=session_id\<close> to the
  constructor of \<^verbatim>\<open>UnifiedMemoryItem\<close>, which declares no such field; a pydantic model
  ignores a keyword that is not a field, so the argument reaches no field of the record.
  \<^verbatim>\<open>metadata or {}\<close> and \<^verbatim>\<open>tags or []\<close> read the optional arguments.
\<close>

definition hub_memory_item ::
  "string \<Rightarrow> datetime \<Rightarrow> string \<Rightarrow> MemoryType \<Rightarrow> string \<Rightarrow> string \<Rightarrow>
     (string \<times> pyval) list option \<Rightarrow> string list option \<Rightarrow> UnifiedMemoryItem" where
  "hub_memory_item uid now c mt ts session_id md tg =
     (new_item uid now c mt ts)\<lparr>metadata := opt_list md, tags := opt_list tg\<rparr>"

definition get_session_cache :: "'v UnifiedMemoryHub \<Rightarrow> string \<Rightarrow> string list" where
  "get_session_cache hub session_id =
     (case map_of (session_memories hub) session_id of None \<Rightarrow> [] | Some ids \<Rightarrow> ids)"

text \<open>
  \<^verbatim>\<open>save_memory\<close>: the cache is written after \<^verbatim>\<open>storage.save\<close> has returned; when that call
  raises, the exception leaves the method and the cache is as before.
\<close>

definition save_memory ::
  "(string \<Rightarrow> 'v) \<Rightarrow> string \<Rightarrow> datetime \<Rightarrow> 'v UnifiedMemoryHub \<Rightarrow>
     string \<Rightarrow> MemoryType \<Rightarrow> string \<Rightarrow> string \<Rightarrow>
     (string \<times> pyval) list option \<Rightarrow> string list option \<Rightarrow>
     'v UnifiedMemoryHub \<times> (error + string)" where
  "save_memory get_embedding uid now hub c mt ts session_id md tg =
     (let memory_item = hub_memory_item uid now c mt ts session_id md tg;
          (st, saved) = hybrid_save get_embedding (storage hub) memory_item
      in (case saved of
            Inl e \<Rightarrow> (hub\<lparr>storage := st\<rparr>, Inl e)
          | Inr memory_id \<Rightarrow>
              let cached = (case map_of (session_memories hub) session_id of
                              None \<Rightarrow> []
                            | Some ids \<Rightarrow> ids)
              in (hub\<lparr>storage := st,
                      session_memories :=
                        AList.update session_id (cached @ [memory_id]) (session_memories hub)\<rparr>,
                  Inr memory_id)))"

text \<open>
  \<^verbatim>\<open>get_session_memories\<close> builds \<^verbatim>\<open>MemoryQueryFilter(session_id=session_id, limit=limit)\<close>.
  The filter declares no field \<^verbatim>\<open>session_id\<close>, so the keyword is ignored and the filter
  that reaches \<^verbatim>\<open>storage.query\<close> carries the limit only.
\<close>

definition get_session_memories ::
  "(string \<Rightarrow> string \<Rightarrow> bool) \<Rightarrow> 'v UnifiedMemoryHub \<Rightarrow> string \<Rightarrow> nat \<Rightarrow>
     error + UnifiedMemoryItem list" where
  "get_session_memories like hub session_id limit =
     (if valid_limit limit
      then Inr (items (hybrid_query like (storage hub) (new_filter\<lparr>f_limit := limit\<rparr>)))
      else Inl ValidationError)"

text \<open>
  A sequence of calls of \<^verbatim>\<open>save_memory\<close> on one hub, each call with the id and the clock
  reading its record receives and with its arguments. The caller goes on after a call that
  raised.
\<close>

record save_call =
  c_uid :: string
  c_now :: datetime
  c_content :: string
  c_memory_type :: MemoryType
  c_tier_source :: string
  c_session_id :: string
  c_metadata :: "(string \<times> pyval) list option"
  c_tags :: "string list option"

fun save_all :: "(string \<Rightarrow> 'v) \<Rightarrow> 'v UnifiedMemoryHub \<Rightarrow> save_call list \<Rightarrow> 'v UnifiedMemoryHub" where
  "save_all get_embedding hub [] = hub"
| "save_all get_embedding hub (c # cs) =
     save_all get_embedding
       (fst (save_memory get_embedding (c_uid c) (c_now c) hub (c_content c) (c_memory_type c)
               (c_tier_source c) (c_session_id c) (c_metadata c) (c_tags c)))
       cs"

section \<open>An instance of the library parameters\<close>

text \<open>
  To run the vector backend on concrete inputs, the two library parameters are instantiated:
  a text is embedded as its length, a vector of dimension one, and the search is the
  exhaustive one of a flat index, the \<open>k\<close> slots nearest by squared distance. \<open>fixed_clock now\<close>
  is a clock that shows \<open>now\<close> for every file of a sweep.
\<close>

definition length_embedding :: "string \<Rightarrow> int" where
  "length_embedding text = int (length text)"

definition flat_search :: "int list \<Rightarrow> int \<Rightarrow> nat \<Rightarrow> (real \<times> int) list" where
  "flat_search vectors q k =
     take k (sort_key fst
       (zip (map (\<lambda>v. real_of_int ((v - q) * (v - q))) vectors) (map int [0..<length vectors])))"


definition empty_hybrid :: "int HybridMemoryStorage" where
  "empty_hybrid = \<lparr> json_store = [], sqlite_store = [], faiss_store = create_new_index \<rparr>"

section \<open>Facts about association lists\<close>

lemma delete_absent: "k \<notin> fst ` set xs \<Longrightarrow> AList.delete k xs = xs"
  by (induction xs) auto

lemma delete_middle:
  "k \<notin> fst ` set xs \<Longrightarrow> k \<notin> fst ` set ys \<Longrightarrow> AList.delete k (xs @ (k, v) # ys) = xs @ ys"
  by (induction xs) auto

lemma map_of_middle:
  "k \<notin> fst ` set xs \<Longrightarrow> map_of (xs @ (k, v) # ys) k = Some v"
  by (induction xs) auto



section \<open>The expiration sweep of the flat-file backend\<close>


lemma cleanup_loop_raises:
  "distinct (map fst (xs @ ys @ (k, d) # zs)) \<Longrightarrow>
   \<forall>kv \<in> set ys. validate (snd kv) = Inr (snd kv) \<Longrightarrow>
   validate d = Inl e \<Longrightarrow>
   cleanup_loop clock dry (map fst (ys @ (k, d) # zs)) (xs @ ys @ (k, d) # zs) n =
     (if dry then xs @ ys @ (k, d) # zs
      else xs @ filter (\<lambda>kv. \<not> expired (clock (fst kv)) (snd kv)) ys @ (k, d) # zs,
      Inl e)"
proof (induction ys arbitrary: xs n)
  case Nil
  from Nil.prems(1) have look: "map_of (xs @ (k, d) # zs) k = Some d"
    by (intro map_of_middle) auto
  show ?case using Nil.prems(3) by (simp add: look del: map_of_append)
next
  case (Cons kv ys)
  obtain a v where kv: "kv = (a, v)" by (cases kv)
  let ?tl = "ys @ (k, d) # zs"
  from Cons.prems(1) kv have nx: "a \<notin> fst ` set xs" and ny: "a \<notin> fst ` set ?tl"
    by auto
  have look: "map_of (xs @ (a, v) # ?tl) a = Some v"
    using nx by (rule map_of_middle)
  have del: "AList.delete a (xs @ (a, v) # ?tl) = xs @ ?tl"
    using nx ny by (rule delete_middle)
  have ok: "validate v = Inr v" using Cons.prems(2) kv by simp
  have rest: "\<forall>kv \<in> set ys. validate (snd kv) = Inr (snd kv)" using Cons.prems(2) by simp
  have d1: "distinct (map fst (xs @ ?tl))" using Cons.prems(1) by simp
  have d2: "distinct (map fst ((xs @ [(a, v)]) @ ?tl))" using Cons.prems(1) kv by simp
  show ?case
  proof (cases "expired (clock a) v \<and> \<not> dry")
    case True
    then show ?thesis
      using Cons.IH [OF d1 rest Cons.prems(3), of "Suc n"]
      by (simp add: kv look del ok del: map_of_append)
  next
    case False
    then show ?thesis
      using Cons.IH [OF d2 rest Cons.prems(3), of n] Cons.IH [OF d2 rest Cons.prems(3), of "Suc n"]
      by (auto simp add: kv look ok simp del: map_of_append)
  qed
qed




section \<open>Deleting an absent id\<close>

text \<open>
  Claim C4 (idempotent delete). On every backend, deleting an id that is not present returns
  false. The relational backend does not: on the empty table, \<^verbatim>\<open>delete\<close> of any id returns
  \<^verbatim>\<open>True\<close> and leaves the table empty.
\<close>

theorem sqlite_delete_absent_returns_true:
  "sqlite_delete [] ''missing'' = ([], True)"
  by (simp add: sqlite_delete_def)

section \<open>Round trip through one backend\<close>

text \<open>
  Claim C2 (round trip). On the relational backend, a record with the empty tag list does not
  come back equal: \<^verbatim>\<open>','.join([])\<close> is the empty text, and \<^verbatim>\<open>''.split(',')\<close> is the list
  holding one empty tag.
\<close>

theorem sqlite_roundtrip_empty_tags:
  "tags (new_item ''r1'' 0 ''hello'' CONVERSATION ''tier'') = []
   \<and> sqlite_save [] (new_item ''r1'' 0 ''hello'' CONVERSATION ''tier'')
     = Inr ([row_of_item (new_item ''r1'' 0 ''hello'' CONVERSATION ''tier'')], ''r1'')
   \<and> map_option tags
       (sqlite_get_by_id [row_of_item (new_item ''r1'' 0 ''hello'' CONVERSATION ''tier'')] ''r1'')
     = Some [[]]"
  by (simp add: sqlite_get_by_id_def sqlite_save_def sqlite_integer_def row_of_item_def
        item_of_row_def new_item_def)

section \<open>The coordinator\<close>

text \<open>
  Claim C5 (the flat-file backend gates delete). When the flat-file backend has no file
  for the id, the coordinator's \<^verbatim>\<open>delete\<close> returns \<^verbatim>\<open>False\<close> and leaves the whole state, so
  also the relational and the vector backend, as it was.
\<close>

theorem hybrid_delete_absent:
  "json_read (json_store h) memory_id = Inr None \<Longrightarrow> hybrid_delete h memory_id = (h, Inr False)"
  by (auto simp add: hybrid_delete_def json_delete_def json_read_def split: location.splits)

theorem hybrid_delete_absent_witness:
  "json_read
     (json_store \<lparr> json_store = [],
        sqlite_store = [row_of_item (new_item ''x'' 0 ''a'' TASK ''t'')],
        faiss_store = fst (faiss_save length_embedding create_new_index (new_item ''x'' 0 ''a'' TASK ''t'')) \<rparr>)
     ''x'' = Inr None
   \<and> hybrid_delete
       \<lparr> json_store = [],
         sqlite_store = [row_of_item (new_item ''x'' 0 ''a'' TASK ''t'')],
         faiss_store = fst (faiss_save length_embedding create_new_index (new_item ''x'' 0 ''a'' TASK ''t'')) \<rparr>
       ''x''
     = (\<lparr> json_store = [],
          sqlite_store = [row_of_item (new_item ''x'' 0 ''a'' TASK ''t'')],
          faiss_store = fst (faiss_save length_embedding create_new_index (new_item ''x'' 0 ''a'' TASK ''t'')) \<rparr>,
        Inr False)"
  using hybrid_delete_absent
    [of "\<lparr> json_store = [],
         sqlite_store = [row_of_item (new_item ''x'' 0 ''a'' TASK ''t'')],
         faiss_store = fst (faiss_save length_embedding create_new_index (new_item ''x'' 0 ''a'' TASK ''t'')) \<rparr>"
        "''x''"]
  by (simp add: json_read_def memory_file_path_def Let_def)

section \<open>The hub\<close>

lemma hybrid_save_session_free:
  "hybrid_save ge (storage hub) (hub_memory_item uid now c mt ts sid1 md tg)
   = hybrid_save ge (storage hub) (hub_memory_item uid now c mt ts sid2 md tg)"
  by (simp add: hub_memory_item_def)

lemma save_memory_cache:
  "get_session_cache (fst (save_memory ge uid now hub c mt ts sid md tg)) sid' =
     (if sid' = sid \<and> snd (save_memory ge uid now hub c mt ts sid md tg) = Inr uid
      then get_session_cache hub sid @ [uid] else get_session_cache hub sid')"
  by (auto simp add: save_memory_def get_session_cache_def hybrid_save_def Let_def update_conv'
        hub_memory_item_def new_item_def split: prod.splits sum.splits)

lemma save_memory_result:
  "snd (save_memory ge uid now hub c mt ts sid md tg) = Inr rid \<Longrightarrow> rid = uid"
  by (auto simp add: save_memory_def hybrid_save_def Let_def hub_memory_item_def new_item_def
        split: prod.splits sum.splits)

lemma save_memory_succeeds:
  "snd (save_memory ge uid now hub c mt ts sid md tg) = Inr uid \<longleftrightarrow> in_directory uid"
  by (auto simp add: save_memory_def hybrid_save_def json_save_def sqlite_save_def sqlite_integer_def
        in_directory_def Let_def hub_memory_item_def new_item_def
        split: prod.splits sum.splits location.splits)

lemma save_all_cache:
  "get_session_cache (save_all ge hub calls) sid =
     get_session_cache hub sid
       @ map c_uid (filter (\<lambda>c. c_session_id c = sid \<and> in_directory (c_uid c)) calls)"
  by (induction calls arbitrary: hub) (simp_all add: save_memory_cache save_memory_succeeds)

text \<open>
  Claim C10 (the session id stays out of the record). Two calls of \<^verbatim>\<open>save_memory\<close> that
  differ in the session id only build the same record, leave the same storage state and
  return the same id, or raise the same exception. The session id decides the cache alone: a
  call that returns adds the new id at the end of the list of its session and leaves the
  lists of the other sessions, and a call that raises leaves the cache as it is; so after a
  sequence of calls the list of a session holds the ids saved under it, in save order. A call
  returns exactly when the path of the new id is a file of the directory of the flat-file
  backend.
\<close>

theorem save_memory_session_independent:
  "hub_memory_item uid now c mt ts sid1 md tg = hub_memory_item uid now c mt ts sid2 md tg
   \<and> storage (fst (save_memory ge uid now hub c mt ts sid1 md tg))
       = storage (fst (save_memory ge uid now hub c mt ts sid2 md tg))
   \<and> snd (save_memory ge uid now hub c mt ts sid1 md tg)
       = snd (save_memory ge uid now hub c mt ts sid2 md tg)
   \<and> (snd (save_memory ge uid now hub c mt ts sid1 md tg) = Inr uid) = in_directory uid
   \<and> get_session_cache (fst (save_memory ge uid now hub c mt ts sid1 md tg)) sid =
       (if sid = sid1 \<and> in_directory uid
        then get_session_cache hub sid1 @ [uid] else get_session_cache hub sid)
   \<and> get_session_cache (save_all ge hub calls) sid =
       get_session_cache hub sid
         @ map c_uid (filter (\<lambda>c. c_session_id c = sid \<and> in_directory (c_uid c)) calls)"
proof -
  have same: "hybrid_save ge (storage hub) (hub_memory_item uid now c mt ts sid1 md tg)
      = hybrid_save ge (storage hub) (hub_memory_item uid now c mt ts sid2 md tg)"
    by (rule hybrid_save_session_free)
  have st: "storage (fst (save_memory ge uid now hub c mt ts sid1 md tg))
       = storage (fst (save_memory ge uid now hub c mt ts sid2 md tg))"
    by (simp add: save_memory_def same Let_def split: prod.splits sum.splits)
  have res: "snd (save_memory ge uid now hub c mt ts sid1 md tg)
       = snd (save_memory ge uid now hub c mt ts sid2 md tg)"
    by (simp add: save_memory_def same Let_def split: prod.splits sum.splits)
  show ?thesis
    using st res save_memory_succeeds [of ge uid now hub c mt ts sid1 md tg]
      save_memory_cache [of ge uid now hub c mt ts sid1 md tg sid]
      save_all_cache [of ge hub calls sid]
    by (simp add: hub_memory_item_def)
qed

text \<open>
  Claim C8 (memories of a session). \<^verbatim>\<open>get_session_memories\<close> does not filter by session:
  on a hub that saved one record under the session \<^verbatim>\<open>s1\<close>, the call for the session \<^verbatim>\<open>s2\<close>
  returns that record.
\<close>

theorem get_session_memories_other_session:
  "snd (save_memory length_embedding ''id1'' 0
          \<lparr> storage = empty_hybrid, session_memories = [] \<rparr>
          ''a'' CONVERSATION ''t'' ''s1'' None None) = Inr ''id1''
   \<and> map_sum id (map item_id)
     (get_session_memories (\<lambda>p t. False)
        (fst (save_memory length_embedding ''id1'' 0
                \<lparr> storage = empty_hybrid, session_memories = [] \<rparr>
                ''a'' CONVERSATION ''t'' ''s1'' None None))
        ''s2'' 50)
   = Inr [''id1'']"
  by (simp add: get_session_memories_def valid_limit_def hybrid_query_def sqlite_query_def
        new_filter_def save_memory_def hybrid_save_def Let_def sqlite_save_def sqlite_integer_def
        json_save_def memory_file_path_def faiss_save_def create_new_index_def
        hub_memory_item_def new_item_def item_of_row_def row_of_item_def empty_hybrid_def)

lemma plain_id_is_file:
  assumes "CHR ''/'' \<notin> set memory_id" and "CHR 0x00 \<notin> set memory_id"
  shows "memory_file_path memory_id = File (memory_id @ ''.json'')"
proof -
  have sp: "split_path s = [s]" if "CHR ''/'' \<notin> set s" for s
    using that by (induction s) auto
  have n1: "CHR ''/'' \<notin> set (memory_id @ ''.json'')" using assms(1) by simp
  have n2: "CHR 0x00 \<notin> set (memory_id @ ''.json'')" using assms(2) by simp
  have n3: "take 1 (memory_id @ ''.json'') \<noteq> ''/''"
    using assms(1) by (cases memory_id) auto
  have n4: "memory_id @ ''.json'' \<noteq> ''..''" "memory_id @ ''.json'' \<noteq> ''.''"
       "memory_id @ ''.json'' \<noteq> []"
    by (auto simp add: append_eq_Cons_conv)
  show ?thesis
    unfolding memory_file_path_def Let_def sp [OF n1]
    using n2 n3 n4 by simp
qed

section \<open>The coordinator: save and update\<close>

lemma json_save_then_read:
  "json_save st R = Inr (st', rid) \<Longrightarrow> rid = item_id R \<and> json_read st' (item_id R) = Inr (Some R)"
  by (auto simp add: json_save_def json_read_def update_conv' split: location.splits)











section \<open>The vector backend\<close>

text \<open>
  Claim C3 (delete visibility). A batch of two records with the same id \<^verbatim>\<open>x\<close>, saved by
  \<^verbatim>\<open>batch_save\<close> on the fresh backend, occupies two slots, and the id maps to the second.
  \<^verbatim>\<open>delete\<close> of \<^verbatim>\<open>x\<close> then returns \<^verbatim>\<open>True\<close> and frees the second slot only; the semantic
  search that follows returns the record of the first slot, whose id is \<^verbatim>\<open>x\<close>.
\<close>

theorem faiss_deleted_id_resurfaces:
  "faiss_delete (fst (faiss_batch_save length_embedding create_new_index
       [new_item ''x'' 0 ''first'' TASK ''t'', new_item ''x'' 0 ''second'' TASK ''t'']))
     ''x''
   = Inr (\<lparr> index = [5, 6], id_to_memory = [(0, new_item ''x'' 0 ''first'' TASK ''t'')],
            memory_id_to_index = [], next_index_position = 2 \<rparr>, True)
   \<and> map_sum id (\<lambda>r. map item_id (items r))
       (faiss_semantic_search length_embedding flat_search
          \<lparr> index = [5, 6], id_to_memory = [(0, new_item ''x'' 0 ''first'' TASK ''t'')],
            memory_id_to_index = [], next_index_position = 2 \<rparr>
          ''first'' None None 10)
     = Inr [''x'']"
  by (simp add: faiss_delete_def faiss_batch_save_def create_new_index_def length_embedding_def
        faiss_semantic_search_def valid_limit_def faiss_query_def faiss_candidates_def
        post_filter_def opt_list_def new_filter_def flat_search_def item_copy_def new_item_def Let_def)

section \<open>The slot invariant of the vector backend\<close>

lemma ball_alist_map_of:
  "distinct (map fst xs) \<Longrightarrow> (\<forall>(k, v) \<in> set xs. P k v) \<longleftrightarrow> (\<forall>k v. map_of xs k = Some v \<longrightarrow> P k v)"
  by auto

lemma map_option_eq_Some_ex:
  "map_option f x = Some y \<longleftrightarrow> (\<exists>z. x = Some z \<and> f z = y)"
  by (cases x) auto

lemma faiss_inv_maps_ok:
  "faiss_inv s \<longleftrightarrow>
     maps_ok (id_to_memory s) (memory_id_to_index s) (next_index_position s)
     \<and> next_index_position s = length (index s)"
proof (cases "distinct (map fst (id_to_memory s)) \<and> distinct (map fst (memory_id_to_index s))")
  case True
  have A: "(\<forall>(pos, item) \<in> set (id_to_memory s).
        map_of (memory_id_to_index s) (item_id item) = Some pos \<and> pos < next_index_position s)
     \<longleftrightarrow> (\<forall>pos item. map_of (id_to_memory s) pos = Some item \<longrightarrow>
        map_of (memory_id_to_index s) (item_id item) = Some pos \<and> pos < next_index_position s)"
    by (rule ball_alist_map_of) (simp add: True)
  have B: "(\<forall>(mid, pos) \<in> set (memory_id_to_index s).
        (\<exists>z. map_of (id_to_memory s) pos = Some z \<and> item_id z = mid))
     \<longleftrightarrow> (\<forall>mid pos. map_of (memory_id_to_index s) mid = Some pos \<longrightarrow>
        (\<exists>z. map_of (id_to_memory s) pos = Some z \<and> item_id z = mid))"
    by (rule ball_alist_map_of) (simp add: True)
  show ?thesis
    by (simp only: faiss_inv_def maps_ok_def A B map_option_eq_Some_ex conj_assoc)
next
  case False
  then show ?thesis
    by (simp only: faiss_inv_def maps_ok_def) blast
qed

lemma maps_ok_overwrite:
  assumes ok: "maps_ok i2m m2i n" and at: "map_of m2i (item_id x) = Some p"
  shows "maps_ok (AList.update p x i2m) m2i n"
proof -
  from ok have
    d1: "distinct (map fst i2m)" and d2: "distinct (map fst m2i)" and
    fw: "\<And>pos item. map_of i2m pos = Some item \<Longrightarrow>
           map_of m2i (item_id item) = Some pos \<and> pos < n" and
    bw: "\<And>mid pos. map_of m2i mid = Some pos \<Longrightarrow>
           \<exists>item. map_of i2m pos = Some item \<and> item_id item = mid"
    unfolding maps_ok_def by blast+
  from bw [OF at] obtain old where old: "map_of i2m p = Some old" "item_id old = item_id x"
    by blast
  have pn: "p < n" using fw [OF old(1)] by simp
  have fw': "map_of m2i (item_id item) = Some pos \<and> pos < n"
    if "map_of (AList.update p x i2m) pos = Some item" for pos item
  proof (cases "pos = p")
    case True
    with that have "item = x" by (simp add: update_conv')
    with True at pn show ?thesis by simp
  next
    case False
    with that have "map_of i2m pos = Some item" by (simp add: update_conv')
    then show ?thesis by (rule fw)
  qed
  have bw': "\<exists>item. map_of (AList.update p x i2m) pos = Some item \<and> item_id item = mid"
    if m: "map_of m2i mid = Some pos" for mid pos
  proof (cases "pos = p")
    case True
    from bw [OF m] True old have "item_id old = mid" by simp
    with old True show ?thesis by (simp add: update_conv')
  next
    case False
    with bw [OF m] show ?thesis by (simp add: update_conv')
  qed
  show ?thesis
    unfolding maps_ok_def using d1 d2 fw' bw' by (simp add: distinct_update)
qed

lemma maps_ok_append:
  assumes ok: "maps_ok i2m m2i n" and fresh: "map_of m2i (item_id x) = None"
  shows "maps_ok (AList.update n x i2m) (AList.update (item_id x) n m2i) (Suc n)"
proof -
  from ok have
    d1: "distinct (map fst i2m)" and d2: "distinct (map fst m2i)" and
    fw: "\<And>pos item. map_of i2m pos = Some item \<Longrightarrow>
           map_of m2i (item_id item) = Some pos \<and> pos < n" and
    bw: "\<And>mid pos. map_of m2i mid = Some pos \<Longrightarrow>
           \<exists>item. map_of i2m pos = Some item \<and> item_id item = mid"
    unfolding maps_ok_def by blast+
  have fw': "map_of (AList.update (item_id x) n m2i) (item_id item) = Some pos \<and> pos < Suc n"
    if "map_of (AList.update n x i2m) pos = Some item" for pos item
  proof (cases "pos = n")
    case True
    with that have "item = x" by (simp add: update_conv')
    with True show ?thesis by (simp add: update_conv')
  next
    case False
    with that have old: "map_of i2m pos = Some item" by (simp add: update_conv')
    from fw [OF old] fresh have "item_id item \<noteq> item_id x" by auto
    with fw [OF old] show ?thesis by (simp add: update_conv')
  qed
  have bw': "\<exists>item. map_of (AList.update n x i2m) pos = Some item \<and> item_id item = mid"
    if m: "map_of (AList.update (item_id x) n m2i) mid = Some pos" for mid pos
  proof (cases "mid = item_id x")
    case True
    with m have "pos = n" by (simp add: update_conv')
    with True show ?thesis by (simp add: update_conv')
  next
    case False
    with m have old: "map_of m2i mid = Some pos" by (simp add: update_conv')
    from bw [OF old] obtain item where item: "map_of i2m pos = Some item" "item_id item = mid"
      by blast
    from fw [OF item(1)] have "pos \<noteq> n" by simp
    with item show ?thesis by (simp add: update_conv')
  qed
  show ?thesis
    unfolding maps_ok_def using d1 d2 fw' bw' by (simp add: distinct_update)
qed

lemma maps_ok_delete:
  assumes ok: "maps_ok i2m m2i n" and at: "map_of m2i mid = Some p"
  shows "maps_ok (AList.delete p i2m) (AList.delete mid m2i) n"
proof -
  from ok have
    d1: "distinct (map fst i2m)" and d2: "distinct (map fst m2i)" and
    fw: "\<And>pos item. map_of i2m pos = Some item \<Longrightarrow>
           map_of m2i (item_id item) = Some pos \<and> pos < n" and
    bw: "\<And>k pos. map_of m2i k = Some pos \<Longrightarrow>
           \<exists>item. map_of i2m pos = Some item \<and> item_id item = k"
    unfolding maps_ok_def by blast+
  have fw': "map_of (AList.delete mid m2i) (item_id item) = Some pos \<and> pos < n"
    if "map_of (AList.delete p i2m) pos = Some item" for pos item
  proof -
    from that have ne: "pos \<noteq> p" and old: "map_of i2m pos = Some item"
      by (auto simp add: delete_conv' split: if_splits)
    from fw [OF old] at ne have "item_id item \<noteq> mid" by auto
    with fw [OF old] show ?thesis by (simp add: delete_conv')
  qed
  have bw': "\<exists>item. map_of (AList.delete p i2m) pos = Some item \<and> item_id item = k"
    if "map_of (AList.delete mid m2i) k = Some pos" for k pos
  proof -
    from that have ne: "k \<noteq> mid" and old: "map_of m2i k = Some pos"
      by (auto simp add: delete_conv' split: if_splits)
    from bw [OF old] obtain item where item: "map_of i2m pos = Some item" "item_id item = k"
      by blast
    from bw [OF at] obtain it2 where it2: "map_of i2m p = Some it2" "item_id it2 = mid"
      by blast
    from item it2 ne have "pos \<noteq> p" by auto
    with item show ?thesis by (simp add: delete_conv')
  qed
  show ?thesis
    unfolding maps_ok_def using d1 d2 fw' bw' by (simp add: distinct_delete)
qed

lemma add_new_items_ok:
  assumes "maps_ok (id_to_memory s) (memory_id_to_index s) (next_index_position s)"
    and "distinct (map item_id xs)"
    and "\<forall>x \<in> set xs. map_of (memory_id_to_index s) (item_id x) = None"
  shows "maps_ok (id_to_memory (add_new_items xs s)) (memory_id_to_index (add_new_items xs s))
           (next_index_position s + length xs)
       \<and> next_index_position (add_new_items xs s) = next_index_position s + length xs
       \<and> index (add_new_items xs s) = index s"
  using assms
proof (induction xs arbitrary: s)
  case Nil
  then show ?case by simp
next
  case (Cons x xs)
  let ?s1 = "s\<lparr>id_to_memory := AList.update (next_index_position s) x (id_to_memory s),
          memory_id_to_index :=
            AList.update (item_id x) (next_index_position s) (memory_id_to_index s),
          next_index_position := Suc (next_index_position s)\<rparr>"
  from Cons.prems have fresh: "map_of (memory_id_to_index s) (item_id x) = None" by simp
  have ok1: "maps_ok (id_to_memory ?s1) (memory_id_to_index ?s1) (next_index_position ?s1)"
    using maps_ok_append [OF Cons.prems(1) fresh] by simp
  have d: "distinct (map item_id xs)" using Cons.prems(2) by simp
  have f1: "\<forall>y \<in> set xs. map_of (memory_id_to_index ?s1) (item_id y) = None"
    using Cons.prems(2,3) by (fastforce simp add: update_conv' image_iff)
  from Cons.IH [OF ok1 d f1] show ?case by simp
qed

lemma update_existing_ok:
  assumes "maps_ok (id_to_memory s) (memory_id_to_index s) (next_index_position s)"
  shows "maps_ok (id_to_memory (update_existing xs s)) (memory_id_to_index (update_existing xs s))
           (next_index_position s)
       \<and> next_index_position (update_existing xs s) = next_index_position s
       \<and> index (update_existing xs s) = index s"
  using assms
proof (induction xs arbitrary: s)
  case Nil
  then show ?case by simp
next
  case (Cons x xs)
  show ?case
  proof (cases "map_of (memory_id_to_index s) (item_id x)")
    case None
    with Cons.IH [OF Cons.prems] show ?thesis by simp
  next
    case (Some p)
    let ?s1 = "s\<lparr>id_to_memory := AList.update p x (id_to_memory s)\<rparr>"
    have "maps_ok (id_to_memory ?s1) (memory_id_to_index ?s1) (next_index_position ?s1)"
      using maps_ok_overwrite [OF Cons.prems Some] by simp
    from Cons.IH [OF this] Some show ?thesis by simp
  qed
qed

lemma rebuild_loop_ok:
  assumes "maps_ok (id_to_memory s) (memory_id_to_index s) n"
    and "distinct (map item_id xs)"
    and "\<forall>x \<in> set xs. map_of (memory_id_to_index s) (item_id x) = None"
  shows "maps_ok (id_to_memory (rebuild_loop (enumerate n xs) s))
           (memory_id_to_index (rebuild_loop (enumerate n xs) s)) (n + length xs)
       \<and> index (rebuild_loop (enumerate n xs) s) = index s"
  using assms
proof (induction xs arbitrary: s n)
  case Nil
  then show ?case by simp
next
  case (Cons x xs)
  let ?s1 = "s\<lparr>id_to_memory := AList.update n x (id_to_memory s),
          memory_id_to_index := AList.update (item_id x) n (memory_id_to_index s)\<rparr>"
  from Cons.prems have fresh: "map_of (memory_id_to_index s) (item_id x) = None" by simp
  have ok1: "maps_ok (id_to_memory ?s1) (memory_id_to_index ?s1) (Suc n)"
    using maps_ok_append [OF Cons.prems(1) fresh] by simp
  have d: "distinct (map item_id xs)" using Cons.prems(2) by simp
  have f1: "\<forall>y \<in> set xs. map_of (memory_id_to_index ?s1) (item_id y) = None"
    using Cons.prems(2,3) by (fastforce simp add: update_conv' image_iff)
  from Cons.IH [OF ok1 d f1] show ?case by simp
qed

lemma maps_ok_distinct_ids:
  assumes ok: "maps_ok i2m m2i n"
  shows "distinct (map item_id (map snd i2m))"
proof -
  from ok have d1: "distinct (map fst i2m)" and
    fw: "\<And>pos item. map_of i2m pos = Some item \<Longrightarrow> map_of m2i (item_id item) = Some pos"
    unfolding maps_ok_def by blast+
  have inj: "inj_on (\<lambda>kv. item_id (snd kv)) (set i2m)"
  proof (rule inj_onI)
    fix a b assume a: "a \<in> set i2m" and b: "b \<in> set i2m"
      and e: "item_id (snd a) = item_id (snd b)"
    from a d1 have ma: "map_of i2m (fst a) = Some (snd a)" by simp
    from b d1 have mb: "map_of i2m (fst b) = Some (snd b)" by simp
    from fw [OF ma] fw [OF mb] e have "fst a = fst b" by simp
    with ma mb have "snd a = snd b" by simp
    with \<open>fst a = fst b\<close> show "a = b" by (simp add: prod_eq_iff)
  qed
  from d1 have "distinct i2m" by (simp add: distinct_map)
  with inj have "distinct (map (\<lambda>kv. item_id (snd kv)) i2m)" by (simp add: distinct_map)
  then show ?thesis by (simp add: comp_def)
qed

lemma maps_ok_empty: "maps_ok [] [] n"
  by (simp add: maps_ok_def)

lemma faiss_inv_create_new_index: "faiss_inv create_new_index"
  by (simp add: faiss_inv_def create_new_index_def)

lemma faiss_save_inv:
  assumes "faiss_inv s"
  shows "faiss_inv (fst (faiss_save ge s x))"
proof -
  from assms have ok: "maps_ok (id_to_memory s) (memory_id_to_index s) (next_index_position s)"
    and len: "next_index_position s = length (index s)"
    unfolding faiss_inv_maps_ok by blast+
  show ?thesis
  proof (cases "map_of (memory_id_to_index s) (item_id x)")
    case None
    from maps_ok_append [OF ok None] len None show ?thesis
      by (simp add: faiss_inv_maps_ok faiss_save_def)
  next
    case (Some p)
    from maps_ok_overwrite [OF ok Some] len Some show ?thesis
      by (simp add: faiss_inv_maps_ok faiss_save_def)
  qed
qed

lemma faiss_delete_inv:
  assumes "faiss_inv s"
  shows "case faiss_delete s mid of Inl e \<Rightarrow> False | Inr (s', b) \<Rightarrow> faiss_inv s'"
proof -
  from assms have ok: "maps_ok (id_to_memory s) (memory_id_to_index s) (next_index_position s)"
    and len: "next_index_position s = length (index s)"
    unfolding faiss_inv_maps_ok by blast+
  show ?thesis
  proof (cases "map_of (memory_id_to_index s) mid")
    case None
    with assms show ?thesis by (simp add: faiss_delete_def)
  next
    case (Some p)
    from ok Some obtain item where "map_of (id_to_memory s) p = Some item"
      unfolding maps_ok_def by blast
    with maps_ok_delete [OF ok Some] len Some show ?thesis
      by (simp add: faiss_inv_maps_ok faiss_delete_def)
  qed
qed

lemma rebuild_index_inv:
  assumes "faiss_inv s"
  shows "faiss_inv (rebuild_index ge s)"
proof (cases "id_to_memory s = []")
  case True
  then show ?thesis by (simp add: rebuild_index_def faiss_inv_create_new_index)
next
  case False
  let ?xs = "map snd (id_to_memory s)"
  let ?fresh = "create_new_index\<lparr>index := map (\<lambda>item. ge (content item)) ?xs\<rparr>"
  let ?r = "rebuild_loop (enumerate 0 ?xs) ?fresh"
  from assms have ok: "maps_ok (id_to_memory s) (memory_id_to_index s) (next_index_position s)"
    unfolding faiss_inv_maps_ok by blast
  have d: "distinct (map item_id ?xs)" using ok by (rule maps_ok_distinct_ids)
  have ok0: "maps_ok (id_to_memory ?fresh) (memory_id_to_index ?fresh) 0"
    by (simp add: create_new_index_def maps_ok_empty)
  have f0: "\<forall>x \<in> set ?xs. map_of (memory_id_to_index ?fresh) (item_id x) = None"
    by (simp add: create_new_index_def)
  from rebuild_loop_ok [OF ok0 d f0]
  have r: "maps_ok (id_to_memory ?r) (memory_id_to_index ?r) (length ?xs)"
    and i: "index ?r = map (\<lambda>item. ge (content item)) ?xs"
    by simp_all
  have "faiss_inv (?r\<lparr>next_index_position := length ?xs\<rparr>)"
    using r i by (simp add: faiss_inv_maps_ok)
  with False show ?thesis by (simp add: rebuild_index_def Let_def)
qed

lemma faiss_batch_save_inv:
  assumes inv: "faiss_inv s" and dis: "distinct (map item_id batch)"
  shows "faiss_inv (fst (faiss_batch_save ge s batch))"
proof -
  let ?new = "filter (\<lambda>item. map_of (memory_id_to_index s) (item_id item) = None) batch"
  let ?s0 = "s\<lparr>index := index s @ map (\<lambda>item. ge (content item)) ?new\<rparr>"
  let ?s1 = "if ?new \<noteq> [] then add_new_items ?new ?s0 else s"
  from inv have ok: "maps_ok (id_to_memory s) (memory_id_to_index s) (next_index_position s)"
    and len: "next_index_position s = length (index s)"
    unfolding faiss_inv_maps_ok by blast+
  have d: "distinct (map item_id ?new)" using dis by (rule distinct_map_filter)
  have ok0: "maps_ok (id_to_memory ?s0) (memory_id_to_index ?s0) (next_index_position ?s0)"
    using ok by simp
  have f0: "\<forall>x \<in> set ?new. map_of (memory_id_to_index ?s0) (item_id x) = None"
    by simp
  from add_new_items_ok [OF ok0 d f0]
  have a: "maps_ok (id_to_memory (add_new_items ?new ?s0)) (memory_id_to_index (add_new_items ?new ?s0))
             (next_index_position (add_new_items ?new ?s0))"
    and an: "next_index_position (add_new_items ?new ?s0) = next_index_position s + length ?new"
    and ai: "index (add_new_items ?new ?s0) = index s @ map (\<lambda>item. ge (content item)) ?new"
    by simp_all
  have ok1: "maps_ok (id_to_memory ?s1) (memory_id_to_index ?s1) (next_index_position ?s1)"
    using a ok by simp
  have len1: "next_index_position ?s1 = length (index ?s1)"
    using an ai len by simp
  from update_existing_ok [OF ok1, of batch] len1
  have "faiss_inv (update_existing batch ?s1)"
    by (simp add: faiss_inv_maps_ok)
  then show ?thesis by (simp add: faiss_batch_save_def Let_def)
qed

text \<open>
  Claim C9 (slot invariant). The fresh index satisfies the invariant. From a state that
  satisfies it, the ids of the stored records are pairwise distinct, and the invariant holds
  again after \<^verbatim>\<open>save\<close>, after \<^verbatim>\<open>delete\<close> (which then does not raise), after
  \<^verbatim>\<open>rebuild_index\<close>, and after \<^verbatim>\<open>batch_save\<close> of a batch whose ids are pairwise distinct.
\<close>

theorem faiss_inv_preserved:
  assumes "faiss_inv (s :: 'v FAISSMemoryStorage)"
  shows "faiss_inv (create_new_index :: 'v FAISSMemoryStorage)
     \<and> distinct (map item_id (map snd (id_to_memory s)))
     \<and> faiss_inv (fst (faiss_save get_embedding s item))
     \<and> (case faiss_delete s memory_id of Inl e \<Rightarrow> False | Inr (s', b) \<Rightarrow> faiss_inv s')
     \<and> faiss_inv (rebuild_index get_embedding s)
     \<and> (distinct (map item_id batch) \<longrightarrow> faiss_inv (fst (faiss_batch_save get_embedding s batch)))"
proof -
  from assms have "maps_ok (id_to_memory s) (memory_id_to_index s) (next_index_position s)"
    unfolding faiss_inv_maps_ok by blast
  then have "distinct (map item_id (map snd (id_to_memory s)))"
    by (rule maps_ok_distinct_ids)
  then show ?thesis
    using faiss_inv_create_new_index faiss_save_inv [OF assms] faiss_delete_inv [OF assms]
      rebuild_index_inv [OF assms] faiss_batch_save_inv [OF assms]
    by blast
qed

theorem faiss_inv_preserved_witness:
  "faiss_inv
     \<lparr> index = [5::int], id_to_memory = [(0, new_item ''a'' 0 ''first'' TASK ''t'')],
       memory_id_to_index = [(''a'', 0)], next_index_position = 1 \<rparr>
   \<and> distinct (map item_id [new_item ''b'' 0 ''second'' TASK ''t'', new_item ''c'' 0 ''third'' TASK ''t''])
   \<and> faiss_inv (fst (faiss_batch_save length_embedding
       \<lparr> index = [5::int], id_to_memory = [(0, new_item ''a'' 0 ''first'' TASK ''t'')],
         memory_id_to_index = [(''a'', 0)], next_index_position = 1 \<rparr>
       [new_item ''b'' 0 ''second'' TASK ''t'', new_item ''c'' 0 ''third'' TASK ''t'']))
   \<and> faiss_inv (rebuild_index length_embedding
       \<lparr> index = [5::int], id_to_memory = [(0, new_item ''a'' 0 ''first'' TASK ''t'')],
         memory_id_to_index = [(''a'', 0)], next_index_position = 1 \<rparr>)"
proof -
  have h: "faiss_inv
     \<lparr> index = [5::int], id_to_memory = [(0, new_item ''a'' 0 ''first'' TASK ''t'')],
       memory_id_to_index = [(''a'', 0)], next_index_position = 1 \<rparr>"
    by (simp add: faiss_inv_def new_item_def)
  have d: "distinct (map item_id
      [new_item ''b'' 0 ''second'' TASK ''t'', new_item ''c'' 0 ''third'' TASK ''t''])"
    by (simp add: new_item_def)
  from faiss_inv_preserved [OF h, of length_embedding "new_item ''b'' 0 ''second'' TASK ''t''" "''a''"
      "[new_item ''b'' 0 ''second'' TASK ''t'', new_item ''c'' 0 ''third'' TASK ''t'']"] h d
  show ?thesis by blast
qed

text \<open>
  The proviso on the batch is needed: two records of one id in a batch on the fresh index
  leave a state that violates the invariant.
\<close>

lemma faiss_batch_save_repeated_id:
  "\<not> faiss_inv (fst (faiss_batch_save length_embedding create_new_index
       [new_item ''x'' 0 ''first'' TASK ''t'', new_item ''x'' 0 ''second'' TASK ''t'']))"
  by (simp add: faiss_inv_def faiss_batch_save_def create_new_index_def new_item_def)


section \<open>What a query of the vector backend can return\<close>

lemma post_filter_subset: "set (post_filter f rs) \<subseteq> set rs"
proof -
  have t: "\<And>n xs. set (take n xs) \<subseteq> set xs" by (rule set_take_subset)
  show ?thesis
    unfolding post_filter_def Let_def
    by (rule subset_trans [OF t]) (auto split: option.splits)
qed

lemma collect_hits_ids:
  "r \<in> set (collect_hits i2m hits) \<Longrightarrow> item_id r \<in> item_id ` snd ` set i2m"
proof (induction i2m hits rule: collect_hits.induct)
  case (1 i2m)
  then show ?case by simp
next
  case (2 i2m d idx hits)
  have copy: "\<And>item. item_id (item_copy item d) = item_id item"
    by (simp add: item_copy_def new_item_def)
  have stored: "\<And>item. map_of i2m (nat idx) = Some item \<Longrightarrow> item_id item \<in> item_id ` snd ` set i2m"
    by (force dest: map_of_SomeD)
  from 2 show ?case
    by (auto simp add: copy stored split: if_splits option.splits)
qed

lemma faiss_candidates_ids:
  assumes "r \<in> set (faiss_candidates ge search s f)"
  shows "item_id r \<in> item_id ` snd ` set (id_to_memory s)"
proof -
  have listed: "item_id r \<in> item_id ` snd ` set (id_to_memory s)"
    if "r \<in> set (take n (map snd (id_to_memory s)))" for n
    using that set_take_subset [of n "map snd (id_to_memory s)"] by auto
  from assms show ?thesis
    unfolding faiss_candidates_def Let_def
    by (auto simp add: listed collect_hits_ids split: option.splits if_splits)
qed

lemma faiss_query_ids:
  assumes "r \<in> set (items (faiss_query ge search s f))"
  shows "item_id r \<in> item_id ` snd ` set (id_to_memory s)"
proof -
  from assms have "r \<in> set (post_filter f (faiss_candidates ge search s f))"
    by (simp add: faiss_query_def Let_def)
  with post_filter_subset have "r \<in> set (faiss_candidates ge search s f)" by blast
  then show ?thesis by (rule faiss_candidates_ids)
qed

text \<open>
  On a state that satisfies the slot invariant, \<^verbatim>\<open>delete\<close> does hide the id: no query on the
  state it leaves returns a record of that id.
\<close>

lemma faiss_delete_hides_id:
  assumes inv: "faiss_inv s" and del: "faiss_delete s mid = Inr (s', True)"
    and r: "r \<in> set (items (faiss_query ge search s' f))"
  shows "item_id r \<noteq> mid"
proof -
  from faiss_delete_inv [OF inv, of mid] del have inv': "faiss_inv s'" by simp
  from del have gone: "map_of (memory_id_to_index s') mid = None"
    by (auto simp add: faiss_delete_def delete_conv' split: option.splits)
  from faiss_query_ids [OF r] obtain pos item
    where mem: "(pos, item) \<in> set (id_to_memory s')" and same: "item_id r = item_id item"
    by auto
  from inv' mem have "map_of (memory_id_to_index s') (item_id item) = Some pos"
    unfolding faiss_inv_def by blast
  with gone same show ?thesis by auto
qed

section \<open>Round trip, backend by backend\<close>

text \<open>
  The flat-file and the vector backend return the saved record itself (lemmas
  \<open>json_save_then_read\<close> and \<open>faiss_save_then_get\<close>); \<^verbatim>\<open>get_by_id\<close> of the flat-file backend
  returns it when the constructor accepts it. The relational backend returns the ten
  columns; the tags come back as the split of their join.
\<close>

lemma json_roundtrip:
  "json_save st R = Inr (st', rid) \<Longrightarrow> validate R = Inr R \<Longrightarrow>
   json_get_by_id st' (item_id R) = Inr (Some R)"
  using json_save_then_read [of st R st' rid] by (simp add: json_get_by_id_def)

lemma sqlite_roundtrip_columns:
  "sqlite_integer (access_count R) \<Longrightarrow>
   \<exists>db' R'. sqlite_save db R = Inr (db', item_id R)
     \<and> sqlite_get_by_id db' (item_id R) = Some R'
     \<and> item_id R' = item_id R \<and> content R' = content R \<and> memory_type R' = memory_type R
     \<and> tier_source R' = tier_source R \<and> metadata R' = metadata R
     \<and> timestamp R' = timestamp R \<and> retention_policy R' = retention_policy R
     \<and> access_count R' = access_count R \<and> last_accessed R' = last_accessed R
     \<and> tags R' = split_comma (join_comma (tags R))"
  by (simp add: sqlite_get_by_id_def sqlite_save_def item_of_row_def row_of_item_def new_item_def)

end
